theory Spec2Isabelle
  imports Complex_Main "HOL-Library.AList"
begin

section \<open>Python strings\<close>

text \<open>
  A Python \<open>str\<close> is a sequence of Unicode code points, so it is a list of code
  points here; \<open>ascii\<close> turns an ASCII literal into one.
\<close>

type_synonym pystr = "nat list"

definition ascii :: "string \<Rightarrow> pystr" where
  "ascii s = map of_char s"

text \<open>
  \<open>str.strip()\<close>, \<open>str.isspace()\<close> and the pattern \<open>\s\<close> of a \<open>str\<close> regular
  expression share one set of white-space code points.
\<close>

definition py_isspace :: "nat \<Rightarrow> bool" where
  "py_isspace c \<longleftrightarrow>
     (9 \<le> c \<and> c \<le> 13) \<or> (28 \<le> c \<and> c \<le> 32) \<or> c = 133 \<or> c = 160 \<or> c = 5760 \<or>
     (8192 \<le> c \<and> c \<le> 8202) \<or> c = 8232 \<or> c = 8233 \<or> c = 8239 \<or> c = 8287 \<or> c = 12288"

definition strip :: "pystr \<Rightarrow> pystr" where
  "strip s = rev (dropWhile py_isspace (rev (dropWhile py_isspace s)))"

definition comma :: nat where
  "comma = 44"

text \<open>\<open>s.split(",")[0]\<close>: the part of \<open>s\<close> before its first comma.\<close>

definition split_comma_first :: "pystr \<Rightarrow> pystr" where
  "split_comma_first s = takeWhile (\<lambda>c. c \<noteq> comma) s"

text \<open>
  \<open>str.lower()\<close> and the simple lower-case mapping that a case-insensitive pattern
  applies to each character are tables of the Unicode database. Their ASCII part is
  written out; the rest is a parameter of the model.
\<close>

record ucd =
  str_lower :: "pystr \<Rightarrow> pystr"
  chr_tolower :: "nat \<Rightarrow> nat"

definition ascii_tolower :: "nat \<Rightarrow> nat" where
  "ascii_tolower c = (if 65 \<le> c \<and> c \<le> 90 then c + 32 else c)"

definition py_lower :: "ucd \<Rightarrow> pystr \<Rightarrow> pystr" where
  "py_lower u s = (if list_all (\<lambda>c. c < 128) s then map ascii_tolower s else str_lower u s)"

definition py_tolower :: "ucd \<Rightarrow> nat \<Rightarrow> nat" where
  "py_tolower u c = (if c < 128 then ascii_tolower c else chr_tolower u c)"

section \<open>Regular expressions\<close>

text \<open>
  The fragment of Python's \<open>re\<close> that the patterns of \<open>clean_translated_text\<close> use:
  character classes, concatenation, ordered alternation, greedy \<open>+\<close> and \<open>*\<close> on a
  character class, \<open>^\<close> and \<open>$\<close>. A position in the subject string is a pair of the
  characters before it, nearest first, and the characters after it. \<open>ends r p\<close> lists
  the positions at which a match of \<open>r\<close> that starts at \<open>p\<close> can end, in the order in
  which the backtracking matcher tries them, so that its head is the match the matcher
  reports.
\<close>

datatype re =
    Eps
  | Cls "nat \<Rightarrow> bool"
  | Seq re re
  | Alt re re
  | Plus "nat \<Rightarrow> bool"
  | Star "nat \<Rightarrow> bool"
  | Bol
  | Eol

type_synonym pos = "pystr \<times> pystr"

text \<open>
  \<open>runs P p\<close>: the positions after each prefix of the longest run of \<open>P\<close>-characters
  at \<open>p\<close>, shortest first, \<open>p\<close> itself included.
\<close>

fun runs :: "(nat \<Rightarrow> bool) \<Rightarrow> pos \<Rightarrow> pos list" where
  "runs P (before, []) = [(before, [])]"
| "runs P (before, c # cs) =
     (before, c # cs) # (if P c then runs P (c # before, cs) else [])"

primrec ends :: "re \<Rightarrow> pos \<Rightarrow> pos list" where
  "ends Eps p = [p]"
| "ends (Cls P) p =
     (case snd p of [] \<Rightarrow> [] | c # cs \<Rightarrow> if P c then [(c # fst p, cs)] else [])"
| "ends (Seq a b) p = concat (map (ends b) (ends a p))"
| "ends (Alt a b) p = ends a p @ ends b p"
| "ends (Plus P) p = rev (tl (runs P p))"
| "ends (Star P) p = rev (runs P p)"
| "ends Bol p = (if fst p = [] then [p] else [])"
| "ends Eol p = (if snd p = [] \<or> snd p = [10] then [p] else [])"

definition match_at :: "re \<Rightarrow> pos \<Rightarrow> pos option" where
  "match_at r p = (case ends r p of [] \<Rightarrow> None | e # _ \<Rightarrow> Some e)"

text \<open>
  \<open>re.sub(r, '', s)\<close> from position \<open>p\<close> on: every match, leftmost first and without
  overlap, is deleted, and the characters between matches are kept. The patterns of
  this program match no empty string (lemma \<open>patterns_consume\<close> below); a match that
  consumes nothing is treated as no match at that position, which deletes nothing
  either.
\<close>

function re_sub_from :: "re \<Rightarrow> pos \<Rightarrow> pystr" where
  "re_sub_from r (before, rest) =
     (case match_at r (before, rest) of
        Some (before', rest') \<Rightarrow>
          if length rest' < length rest then re_sub_from r (before', rest')
          else (case rest of [] \<Rightarrow> [] | c # cs \<Rightarrow> c # re_sub_from r (c # before, cs))
      | None \<Rightarrow> (case rest of [] \<Rightarrow> [] | c # cs \<Rightarrow> c # re_sub_from r (c # before, cs)))"
  by pat_completeness auto
termination
  by (relation "measure (\<lambda>(r, p). length (snd p))") auto

definition re_sub :: "re \<Rightarrow> pystr \<Rightarrow> pystr" where
  "re_sub r s = re_sub_from r ([], s)"

text \<open>\<open>re.split(r, s)[0]\<close>: the part of \<open>s\<close> before the leftmost match, or all of \<open>s\<close>.\<close>

fun re_split_from :: "re \<Rightarrow> pos \<Rightarrow> pystr" where
  "re_split_from r (before, []) = []"
| "re_split_from r (before, c # cs) =
     (case match_at r (before, c # cs) of
        Some e \<Rightarrow> []
      | None \<Rightarrow> c # re_split_from r (c # before, cs))"

definition re_split_first :: "re \<Rightarrow> pystr \<Rightarrow> pystr" where
  "re_split_first r s = re_split_from r ([], s)"

text \<open>
  A pattern that \<open>consumes\<close> has no empty match: every way through it takes a character.
\<close>

primrec consumes :: "re \<Rightarrow> bool" where
  "consumes Eps = False"
| "consumes (Cls P) = True"
| "consumes (Seq a b) = (consumes a \<or> consumes b)"
| "consumes (Alt a b) = (consumes a \<and> consumes b)"
| "consumes (Plus P) = True"
| "consumes (Star P) = False"
| "consumes Bol = False"
| "consumes Eol = False"

subsection \<open>The patterns\<close>

text \<open>
  Under \<open>re.IGNORECASE\<close> a letter of the pattern matches a character whose simple
  lower-case mapping is that letter or one of its case-equivalents: dotless i
  (U+0131) for \<open>i\<close> and long s (U+017F) for \<open>s\<close>; the other letters of these patterns
  have none.
\<close>

definition ci :: "ucd \<Rightarrow> nat \<Rightarrow> nat \<Rightarrow> bool" where
  "ci u p c = (let l = py_tolower u c in l = p \<or> (p = 105 \<and> l = 305) \<or> (p = 115 \<and> l = 383))"

definition word_ci :: "ucd \<Rightarrow> string \<Rightarrow> re" where
  "word_ci u w = foldr (\<lambda>c r. Seq (Cls (ci u (of_char c))) r) w Eps"

definition word :: "string \<Rightarrow> re" where
  "word w = foldr (\<lambda>c r. Seq (Cls (\<lambda>x. x = of_char c)) r) w Eps"

text \<open>\<open>.\<close> matches every character but the newline.\<close>

definition dot :: "nat \<Rightarrow> bool" where
  "dot c = (c \<noteq> 10)"

text \<open>
  The five substitution patterns, in the order of the source:
  \<^verbatim>\<open>^(a|an|the)\s+\<close>, \<^verbatim>\<open>\s+(is|are|was|were)\s+.*$\<close>, \<^verbatim>\<open>^it\s+(is|was)\s+\<close>,
  \<^verbatim>\<open>^this\s+(is|was)\s+\<close> and \<^verbatim>\<open>^that\s+(is|was)\s+\<close>.
\<close>

definition is_was :: "ucd \<Rightarrow> re" where
  "is_was u = Alt (word_ci u ''is'') (word_ci u ''was'')"

definition patterns :: "ucd \<Rightarrow> re list" where
  "patterns u =
     [ Seq Bol (Seq (Alt (word_ci u ''a'') (Alt (word_ci u ''an'') (word_ci u ''the'')))
                    (Plus py_isspace)),
       Seq (Plus py_isspace)
           (Seq (Alt (word_ci u ''is'') (Alt (word_ci u ''are'')
                   (Alt (word_ci u ''was'') (word_ci u ''were''))))
                (Seq (Plus py_isspace) (Seq (Star dot) Eol))),
       Seq Bol (Seq (word_ci u ''it'') (Seq (Plus py_isspace) (Seq (is_was u) (Plus py_isspace)))),
       Seq Bol (Seq (word_ci u ''this'') (Seq (Plus py_isspace) (Seq (is_was u) (Plus py_isspace)))),
       Seq Bol (Seq (word_ci u ''that'') (Seq (Plus py_isspace) (Seq (is_was u) (Plus py_isspace)))) ]"

text \<open>\<^verbatim>\<open>[,;.]|\s+(is|are|and|or)\s+\<close>, without \<open>re.IGNORECASE\<close>.\<close>

definition split_pattern :: re where
  "split_pattern =
     Alt (Cls (\<lambda>c. c = 44 \<or> c = 59 \<or> c = 46))
         (Seq (Plus py_isspace)
              (Seq (Alt (word ''is'') (Alt (word ''are'') (Alt (word ''and'') (word ''or''))))
                   (Plus py_isspace)))"

section \<open>Text cleaners\<close>

definition clean_generated_answer :: "pystr \<Rightarrow> pystr" where
  "clean_generated_answer generated =
     (if generated = [] then []
      else if comma \<in> set generated then strip (split_comma_first generated)
      else strip generated)"

definition clean_translated_text :: "ucd \<Rightarrow> pystr \<Rightarrow> pystr" where
  "clean_translated_text u text =
     (if text = [] then []
      else strip (re_split_first split_pattern
                   (foldl (\<lambda>t p. re_sub p t) (strip (py_lower u text)) (patterns u))))"

section \<open>Configuration\<close>

definition TRANSLATION_CACHE_FILE :: pystr where
  "TRANSLATION_CACHE_FILE = ascii ''translation_cache.json''"

definition get_language_code :: "pystr \<Rightarrow> pystr" where
  "get_language_code language =
     (case map_of [(ascii ''assamese'', ascii ''as''), (ascii ''bengali'', ascii ''bn''),
                   (ascii ''spanish'', ascii ''es'')] language of
        Some code \<Rightarrow> code
      | None \<Rightarrow> ascii ''auto'')"

section \<open>Values, exceptions, events and the state of a run\<close>

text \<open>What \<open>json.loads\<close> returns. A Python \<open>dict\<close> keeps its keys in insertion order.\<close>

datatype json =
    JNull
  | JBool bool
  | JNum rat
  | JStr pystr
  | JArr "json list"
  | JObj "(pystr \<times> json) list"

text \<open>
  \<open>IllTyped\<close> stands for a call of \<open>translate_text\<close> on a value that is not a \<open>str\<close>,
  against its annotation \<open>text: str\<close>; what Python does there is not modelled.
\<close>

datatype pyexn =
    TypeError
  | AttributeError
  | IllTyped
  | LibraryError pystr

datatype provider = GoogleTranslator | MyMemoryTranslator

datatype message =
    TranslationError pystr pyexn
  | OriginalTranslated pystr pystr
  | ProcessedEntries nat pystr
  | CompletedLanguage pystr nat

datatype event =
    NetCall provider pystr pystr
  | Sleep rat
  | Print message

text \<open>
  The cache dictionary is passed by reference and mutated in place, so it is part of
  the state, with the events so far (oldest first) and the files written.
\<close>

record state =
  cache :: "(pystr \<times> pystr) list"
  trace :: "event list"
  files :: "(pystr \<times> pystr) list"

text \<open>
  The world outside the program. A translation provider is called with the source
  language code and the text (the target is always \<open>en\<close>) and either returns a string
  or raises; its answer may change from one call to the next, so it also depends on the
  moment of the call, the number of events before it. The \<open>json\<close> library and the
  text encoding of files are parameters too: \<open>json_dump_cache\<close> gives the text that
  \<open>json.dump(cache, f, ensure_ascii=False, indent=2)\<close> leaves in the file and the
  exception it raises, if any.
\<close>

record env =
  unicode :: ucd
  google :: "nat \<Rightarrow> pystr \<Rightarrow> pystr \<Rightarrow> pyexn + pystr"
  mymemory :: "nat \<Rightarrow> pystr \<Rightarrow> pystr \<Rightarrow> pyexn + pystr"
  json_loads :: "pystr \<Rightarrow> pyexn + json"
  json_dumps :: "json \<Rightarrow> pystr"
  json_load_cache :: "pystr \<Rightarrow> pyexn + (pystr \<times> pystr) list"
  json_dump_cache :: "(pystr \<times> pystr) list \<Rightarrow> pystr \<times> pyexn option"

definition now :: "state \<Rightarrow> nat" where
  "now st = length (trace st)"

definition emit :: "event \<Rightarrow> state \<Rightarrow> state" where
  "emit e st = st\<lparr>trace := trace st @ [e]\<rparr>"

definition rate_limit_delay :: rat where
  "rate_limit_delay = 1 / 10"

section \<open>Cache store\<close>


definition save_cache :: "env \<Rightarrow> (pystr \<times> pystr) list \<Rightarrow> state \<Rightarrow> pyexn option \<times> state" where
  "save_cache E c st =
     (case json_dump_cache E c of
        (text, raised) \<Rightarrow>
          (raised, st\<lparr>files := AList.update TRANSLATION_CACHE_FILE text (files st)\<rparr>))"

section \<open>Translator\<close>

definition cache_key_of :: "pystr \<Rightarrow> pystr \<Rightarrow> pystr" where
  "cache_key_of source_lang text = source_lang @ ascii '':'' @ text"

text \<open>
  The body of the outer \<open>try\<close>: \<open>Inl\<close> is an exception that leaves it, with the state
  at that moment. Only the call of the primary provider can raise there: the bare
  \<open>except\<close> of the inner \<open>try\<close> catches whatever the fallback call raises, and
  \<open>translated\<close> then still holds the primary provider's answer.
\<close>

definition translate_try ::
  "env \<Rightarrow> pystr \<Rightarrow> pystr \<Rightarrow> state \<Rightarrow> (pyexn \<times> state) + (pystr \<times> state)" where
  "translate_try E text source_lang st =
     (let st1 = emit (NetCall GoogleTranslator source_lang text) st in
      case google E (now st) source_lang text of
        Inl e \<Rightarrow> Inl (e, st1)
      | Inr translated \<Rightarrow>
          (let cleaned = clean_translated_text (unicode E) translated;
               (cleaned', st2) =
                 (if cleaned = [] then
                    (let st2 = emit (NetCall MyMemoryTranslator source_lang text) st1 in
                     case mymemory E (now st1) source_lang text of
                       Inl e \<Rightarrow> (translated, st2)
                     | Inr translated' \<Rightarrow> (clean_translated_text (unicode E) translated', st2))
                  else (cleaned, st1));
               st3 = st2\<lparr>cache := AList.update (cache_key_of source_lang text) cleaned' (cache st2)\<rparr>
           in Inr (cleaned', emit (Sleep rate_limit_delay) st3)))"

definition translate_text :: "env \<Rightarrow> pystr \<Rightarrow> pystr \<Rightarrow> state \<Rightarrow> pystr \<times> state" where
  "translate_text E text source_lang st =
     (if text = [] then ([], st)
      else case map_of (cache st) (cache_key_of source_lang text) of
        Some hit \<Rightarrow> (hit, st)
      | None \<Rightarrow>
          (case translate_try E text source_lang st of
             Inr res \<Rightarrow> res
           | Inl (e, st') \<Rightarrow> (text, emit (Print (TranslationError text e)) st')))"

section \<open>File processor\<close>

text \<open>Python's truth value of a value, as \<open>not generated\<close> tests it.\<close>

fun truthy :: "json \<Rightarrow> bool" where
  "truthy JNull = False"
| "truthy (JBool b) = b"
| "truthy (JNum n) = (n \<noteq> 0)"
| "truthy (JStr s) = (s \<noteq> [])"
| "truthy (JArr xs) = (xs \<noteq> [])"
| "truthy (JObj kvs) = (kvs \<noteq> [])"

text \<open>
  \<open>clean_generated_answer\<close> on whatever the record holds under \<open>Generated\<close>: a value
  that is false returns the empty string; another value that is not a string raises, at
  \<open>"," in generated\<close> (a number, \<open>true\<close>) or at \<open>.split\<close> or \<open>.strip\<close> (a list, a dict).
\<close>

fun clean_generated_value :: "json \<Rightarrow> pyexn + pystr" where
  "clean_generated_value (JStr s) = Inr (clean_generated_answer s)"
| "clean_generated_value (JArr xs) = (if xs = [] then Inr [] else Inl AttributeError)"
| "clean_generated_value (JObj kvs) = (if kvs = [] then Inr [] else Inl AttributeError)"
| "clean_generated_value v = (if truthy v then Inl TypeError else Inr [])"

text \<open>
  What \<open>for answer in v\<close> runs over: the elements of a list, the characters of a
  string, the keys of a dict; any other value is not iterable.
\<close>

fun py_iter :: "json \<Rightarrow> pyexn + json list" where
  "py_iter (JArr xs) = Inr xs"
| "py_iter (JStr s) = Inr (map (\<lambda>c. JStr [c]) s)"
| "py_iter (JObj kvs) = Inr (map (\<lambda>kv. JStr (fst kv)) kvs)"
| "py_iter v = Inl TypeError"

definition dict_get :: "(pystr \<times> json) list \<Rightarrow> pystr \<Rightarrow> json \<Rightarrow> json" where
  "dict_get d k dflt = (case map_of d k of Some v \<Rightarrow> v | None \<Rightarrow> dflt)"

text \<open>The loop over the answers: each is translated, appended and printed, in order.\<close>

fun translate_answers ::
  "env \<Rightarrow> pystr \<Rightarrow> json list \<Rightarrow> state \<Rightarrow> (pyexn + pystr list) \<times> state" where
  "translate_answers E lang_code [] st = (Inr [], st)"
| "translate_answers E lang_code (JStr answer # rest) st =
     (case translate_text E answer lang_code st of
        (translated, st1) \<Rightarrow>
          (case translate_answers E lang_code rest
                  (emit (Print (OriginalTranslated answer translated)) st1) of
             (Inr others, st2) \<Rightarrow> (Inr (translated # others), st2)
           | (Inl e, st2) \<Rightarrow> (Inl e, st2)))"
| "translate_answers E lang_code (v # rest) st = (Inl IllTyped, st)"

text \<open>The body of the loop over the lines, from the parsed record to the enriched one.\<close>

definition process_record ::
  "env \<Rightarrow> pystr \<Rightarrow> (pystr \<times> json) list \<Rightarrow> state \<Rightarrow> (pyexn + (pystr \<times> json) list) \<times> state" where
  "process_record E lang_code data st =
     (case clean_generated_value (dict_get data (ascii ''Generated'') (JStr [])) of
        Inl e \<Rightarrow> (Inl e, st)
      | Inr cleaned_generated \<Rightarrow>
          (let data1 = AList.update (ascii ''CleanedAnswer'') (JStr cleaned_generated) data;
               (translated_generated, st1) =
                 (if cleaned_generated \<noteq> [] then translate_text E cleaned_generated lang_code st
                  else ([], st));
               data2 = AList.update (ascii ''TranslatedAnswer'') (JStr translated_generated) data1
           in case py_iter (dict_get data2 (ascii ''Answer'') (JArr [])) of
                Inl e \<Rightarrow> (Inl e, st1)
              | Inr answers \<Rightarrow>
                  (case translate_answers E lang_code answers st1 of
                     (Inl e, st2) \<Rightarrow> (Inl e, st2)
                   | (Inr translated_answers, st2) \<Rightarrow>
                       (Inr (AList.update (ascii ''TranslatedAnswerList'')
                               (JArr (map JStr translated_answers)) data2), st2))))"

definition append_file :: "pystr \<Rightarrow> pystr \<Rightarrow> state \<Rightarrow> state" where
  "append_file path text st =
     st\<lparr>files := AList.update path
                    ((case map_of (files st) path of Some old \<Rightarrow> old | None \<Rightarrow> []) @ text)
                    (files st)\<rparr>"

text \<open>
  The loop of \<open>process_file\<close> over the lines of the input, with the count of the
  records processed so far; \<open>data.get\<close> raises on a line that is not a JSON object. The
  progress bar is left out.
\<close>

fun process_lines ::
  "env \<Rightarrow> pystr \<Rightarrow> pystr \<Rightarrow> pystr \<Rightarrow> pystr list \<Rightarrow> nat \<Rightarrow> state \<Rightarrow> (pyexn + nat) \<times> state" where
  "process_lines E output_path language lang_code [] processed_count st =
     (Inr processed_count, st)"
| "process_lines E output_path language lang_code (line # rest) processed_count st =
     (case json_loads E line of
        Inl e \<Rightarrow> (Inl e, st)
      | Inr (JObj data) \<Rightarrow>
          (case process_record E lang_code data st of
             (Inl e, st1) \<Rightarrow> (Inl e, st1)
           | (Inr data', st1) \<Rightarrow>
               (let st2 = append_file output_path (json_dumps E (JObj data') @ [10]) st1;
                    n = Suc processed_count
                in if n mod 10 = 0 then
                     (case save_cache E (cache st2) (emit (Print (ProcessedEntries n language)) st2) of
                        (Some e, st3) \<Rightarrow> (Inl e, st3)
                      | (None, st3) \<Rightarrow> process_lines E output_path language lang_code rest n st3)
                   else process_lines E output_path language lang_code rest n st2))
      | Inr v \<Rightarrow> (Inl AttributeError, st))"

definition process_file ::
  "env \<Rightarrow> pystr list \<Rightarrow> pystr \<Rightarrow> pystr \<Rightarrow> state \<Rightarrow> pyexn option \<times> state" where
  "process_file E input_lines output_path language st =
     (let lang_code = get_language_code language;
          st0 = st\<lparr>files := AList.update output_path [] (files st)\<rparr>
      in case process_lines E output_path language lang_code input_lines 0 st0 of
           (Inl e, st1) \<Rightarrow> (Some e, st1)
         | (Inr processed_count, st1) \<Rightarrow>
             (case save_cache E (cache st1) st1 of
                (Some e, st2) \<Rightarrow> (Some e, st2)
              | (None, st2) \<Rightarrow> (None, emit (Print (CompletedLanguage language processed_count)) st2)))"

section \<open>Observations on a trace\<close>

fun is_net_call :: "event \<Rightarrow> bool" where
  "is_net_call (NetCall p l t) = True"
| "is_net_call e = False"

definition net_calls :: "event list \<Rightarrow> nat" where
  "net_calls tr = length (filter is_net_call tr)"

text \<open>The events of a run from state \<open>st\<close> to state \<open>st'\<close>.\<close>

definition new_events :: "state \<Rightarrow> state \<Rightarrow> event list" where
  "new_events st st' = drop (length (trace st)) (trace st')"

section \<open>Observations on the processing of a record\<close>

text \<open>
  The translation of the cleaned generated answer and the state after it, in which the
  loop over the answers starts: as in \<open>process_record\<close>, nothing is translated when the
  cleaned answer is empty.
\<close>

definition generated_text :: "env \<Rightarrow> pystr \<Rightarrow> pystr \<Rightarrow> state \<Rightarrow> pystr" where
  "generated_text E lang_code c st =
     (if c \<noteq> [] then fst (translate_text E c lang_code st) else [])"

definition generated_state :: "env \<Rightarrow> pystr \<Rightarrow> pystr \<Rightarrow> state \<Rightarrow> state" where
  "generated_state E lang_code c st =
     (if c \<noteq> [] then snd (translate_text E c lang_code st) else st)"

section \<open>Concrete worlds\<close>

text \<open>
  Worlds to run the model in: providers that give the same answer at every call, the
  identity for the Unicode tables beyond ASCII (the texts below are ASCII), and a
  \<open>json\<close> library that is not called.
\<close>

definition ucd0 :: ucd where
  "ucd0 = \<lparr>str_lower = id, chr_tolower = id\<rparr>"

definition world :: "(pyexn + pystr) \<Rightarrow> (pyexn + pystr) \<Rightarrow> env" where
  "world g m =
     \<lparr>unicode = ucd0, google = (\<lambda>n l t. g), mymemory = (\<lambda>n l t. m),
      json_loads = (\<lambda>s. Inl (LibraryError [])), json_dumps = (\<lambda>v. []),
      json_load_cache = (\<lambda>s. Inl (LibraryError [])), json_dump_cache = (\<lambda>c. ([], None))\<rparr>"

definition outage :: pyexn where
  "outage = LibraryError (ascii ''Request exception can happen due to an api connection error'')"

definition world_down :: env where
  "world_down = world (Inl outage) (Inl outage)"

definition world_comma :: env where
  "world_comma = world (Inr (ascii '', cat'')) (Inl outage)"

definition world_fallback :: env where
  "world_fallback = world (Inr (ascii '', cat'')) (Inr (ascii ''The cat is an animal''))"

definition world_up :: env where
  "world_up = world (Inr (ascii ''The cat is an animal'')) (Inl outage)"

definition st0 :: state where
  "st0 = \<lparr>cache = [], trace = [], files = []\<rparr>"

text \<open>The Assamese word for cat, as code points.\<close>

definition mekuri :: pystr where
  "mekuri = [2478, 2503, 2453, 2497, 2544, 2496]"

definition lang_as :: pystr where
  "lang_as = ascii ''as''"

text \<open>Two calls in a row while the primary provider is down, and one call in each other world.\<close>

definition down_first :: "pystr \<times> state" where
  "down_first = translate_text world_down mekuri lang_as st0"

definition down_second :: "pystr \<times> state" where
  "down_second = translate_text world_down mekuri lang_as (snd down_first)"

definition comma_run :: "pystr \<times> state" where
  "comma_run = translate_text world_comma mekuri lang_as st0"

definition fallback_run :: "pystr \<times> state" where
  "fallback_run = translate_text world_fallback mekuri lang_as st0"

definition up_run :: "pystr \<times> state" where
  "up_run = translate_text world_up mekuri lang_as st0"

text \<open>
  A world whose primary provider returns the text it is given, and two records: the one
  of the end-to-end example with one more key, and one without an \<open>Answer\<close>.
\<close>

definition world_echo :: env where
  "world_echo = (world (Inl outage) (Inl outage))\<lparr>google := (\<lambda>n l t. Inr t)\<rparr>"


definition record_dog :: "(pystr \<times> json) list" where
  "record_dog = [(ascii ''Generated'', JStr (ascii ''dog''))]"

section \<open>A stand-in for the \<open>json\<close> library\<close>















section \<open>Evaluation and helper lemmas\<close>

lemmas eval_defs =
  ascii_def clean_translated_text_def strip_def py_lower_def re_sub_def patterns_def is_was_def
  match_at_def word_ci_def word_def ci_def py_tolower_def ascii_tolower_def py_isspace_def
  split_pattern_def re_split_first_def dot_def clean_generated_answer_def comma_def
  split_comma_first_def

text \<open>\<open>strip\<close> removes white space at both ends and nothing else.\<close>

lemma strip_decomposition:
  "\<exists>l r. s = l @ strip s @ r \<and> list_all py_isspace l \<and> list_all py_isspace r"
proof -
  let ?l = "takeWhile py_isspace s"
  let ?m = "dropWhile py_isspace s"
  let ?r = "rev (takeWhile py_isspace (rev ?m))"
  have "s = ?l @ ?m" by simp
  moreover have "?m = strip s @ ?r"
    unfolding strip_def by (metis rev_append rev_rev_ident takeWhile_dropWhile_id)
  moreover have "list_all py_isspace ?l"
    by (simp add: list_all_iff) (meson set_takeWhileD)
  moreover have "list_all py_isspace ?r"
    by (simp add: list_all_iff) (meson set_takeWhileD)
  ultimately show ?thesis by metis
qed

lemma dropWhile_snoc_keep: "\<not> P x \<Longrightarrow> dropWhile P (ys @ [x]) = dropWhile P ys @ [x]"
  by (induction ys) auto

lemma strip_ends:
  assumes ne: "strip s \<noteq> []"
  shows "\<not> py_isspace (hd (strip s)) \<and> \<not> py_isspace (last (strip s))"
proof -
  let ?m = "dropWhile py_isspace s"
  let ?d = "dropWhile py_isspace (rev ?m)"
  have d: "?d \<noteq> []" using ne by (simp add: strip_def)
  then have "\<not> py_isspace (hd ?d)" by (rule hd_dropWhile)
  moreover have "last (strip s) = hd ?d" using d by (simp add: strip_def last_rev)
  ultimately have lst: "\<not> py_isspace (last (strip s))" by simp
  have "?m \<noteq> []" using d by (auto dest: set_dropWhileD)
  then obtain x xs where mx: "?m = x # xs" by (cases ?m) auto
  then have nx: "\<not> py_isspace x" by (metis hd_dropWhile list.sel(1) list.distinct(1))
  have "?d = dropWhile py_isspace (rev xs) @ [x]"
    using mx nx by (simp add: dropWhile_snoc_keep)
  then have "hd (strip s) = x" by (simp add: strip_def)
  with nx lst show ?thesis by simp
qed

lemma strip_subset: "set (strip s) \<subseteq> set s"
  unfolding strip_def by (metis set_dropWhileD set_rev subsetI)

lemma re_split_from_kept:
  "c \<in> set (re_split_from r (b, s)) \<Longrightarrow> \<exists>b' s'. match_at r (b', c # s') = None"
proof (induction s arbitrary: b)
  case Nil
  then show ?case by simp
next
  case (Cons x xs)
  show ?case
  proof (cases "match_at r (b, x # xs)")
    case None
    with Cons show ?thesis by (cases "c = x") auto
  next
    case (Some e)
    with Cons.prems show ?thesis by simp
  qed
qed

lemma split_pattern_punct:
  "match_at split_pattern (b, c # cs) = None \<Longrightarrow> c \<noteq> 44 \<and> c \<noteq> 59 \<and> c \<noteq> 46"
  by (auto simp: match_at_def split_pattern_def split: list.splits if_splits)

lemma clean_translated_no_punct:
  assumes "c \<in> set (clean_translated_text u t)"
  shows "c \<noteq> 44 \<and> c \<noteq> 59 \<and> c \<noteq> 46"
proof -
  from assms have "t \<noteq> []" by (auto simp: clean_translated_text_def)
  with assms obtain s where "c \<in> set (strip (re_split_first split_pattern s))"
    by (auto simp: clean_translated_text_def)
  then have "c \<in> set (re_split_from split_pattern ([], s))"
    using strip_subset by (auto simp: re_split_first_def)
  then obtain b' s' where "match_at split_pattern (b', c # s') = None"
    using re_split_from_kept by blast
  then show ?thesis by (rule split_pattern_punct)
qed

text \<open>
  No pattern of the program has an empty match, so the first branch of \<open>re_sub_from\<close> is
  the one taken at every match.
\<close>

lemma runs_le: "q \<in> set (runs P p) \<Longrightarrow> length (snd q) \<le> length (snd p)"
proof (induction P p rule: runs.induct)
  case (1 P before)
  then show ?case by simp
next
  case (2 P before c cs)
  then show ?case by (auto split: if_splits) 
qed

lemma runs_tl_less: "q \<in> set (tl (runs P p)) \<Longrightarrow> length (snd q) < length (snd p)"
proof (cases p)
  case (Pair before rest)
  assume q: "q \<in> set (tl (runs P p))"
  show ?thesis
  proof (cases rest)
    case Nil
    with Pair q show ?thesis by simp
  next
    case (Cons c cs)
    with Pair q have "P c" and "q \<in> set (runs P (c # before, cs))"
      by (auto split: if_splits)
    from runs_le [OF this(2)] Pair Cons show ?thesis by simp
  qed
qed

lemma ends_le: "q \<in> set (ends r p) \<Longrightarrow> length (snd q) \<le> length (snd p)"
proof (induction r arbitrary: p q)
  case (Seq a b)
  then obtain m where "m \<in> set (ends a p)" "q \<in> set (ends b m)" by auto
  with Seq.IH show ?case by (meson le_trans)
next
  case (Plus P)
  then show ?case using runs_tl_less [of q P p] by simp
next
  case (Star P)
  then show ?case using runs_le [of q P p] by simp
qed (auto split: list.splits if_splits)

lemma ends_less: "consumes r \<Longrightarrow> q \<in> set (ends r p) \<Longrightarrow> length (snd q) < length (snd p)"
proof (induction r arbitrary: p q)
  case (Seq a b)
  from Seq.prems(2) obtain m where m: "m \<in> set (ends a p)" "q \<in> set (ends b m)" by auto
  from Seq.prems(1) consider "consumes a" | "consumes b" by auto
  then show ?case
  proof cases
    case 1
    from Seq.IH(1) [OF 1 m(1)] ends_le [OF m(2)] show ?thesis by simp
  next
    case 2
    from Seq.IH(2) [OF 2 m(2)] ends_le [OF m(1)] show ?thesis by simp
  qed
next
  case (Plus P)
  then show ?case using runs_tl_less [of q P p] by simp
qed (auto split: list.splits if_splits)

lemma consumes_word_ci: "w \<noteq> [] \<Longrightarrow> consumes (word_ci u w)"
  by (cases w) (simp_all add: word_ci_def)

lemma patterns_consume: "list_all consumes (patterns u)" and "consumes split_pattern"
  by (simp_all add: patterns_def split_pattern_def)

lemma match_at_consumes:
  "consumes r \<Longrightarrow> match_at r p = Some q \<Longrightarrow> length (snd q) < length (snd p)"
  by (rule ends_less [of r q p]) (auto simp: match_at_def split: list.splits)

section \<open>The translator, case by case\<close>

lemmas run_defs = translate_text_def translate_try_def emit_def now_def cache_key_of_def
  world_def st0_def ucd0_def mekuri_def lang_as_def outage_def rate_limit_delay_def

lemma map_of_update_same: "map_of (AList.update k v al) k = Some v"
  by (simp add: update_conv')

lemma translate_text_hit:
  "text \<noteq> [] \<Longrightarrow> map_of (cache st) (cache_key_of source_lang text) = Some hit \<Longrightarrow>
   translate_text E text source_lang st = (hit, st)"
  by (simp add: translate_text_def)

lemma translate_text_raise:
  "text \<noteq> [] \<Longrightarrow> map_of (cache st) (cache_key_of source_lang text) = None \<Longrightarrow>
   google E (now st) source_lang text = Inl e \<Longrightarrow>
   translate_text E text source_lang st =
     (text, st\<lparr>trace := trace st @ [NetCall GoogleTranslator source_lang text,
                                     Print (TranslationError text e)]\<rparr>)"
  by (simp add: translate_text_def translate_try_def emit_def)

lemma translate_try_Inl:
  "translate_try E text source_lang st = Inl (e, st') \<Longrightarrow>
   google E (now st) source_lang text = Inl e \<and>
   st' = emit (NetCall GoogleTranslator source_lang text) st"
  by (auto simp: translate_try_def Let_def split: sum.splits if_splits prod.splits)

text \<open>The three ways in which the body of the \<open>try\<close> returns.\<close>

lemma translate_try_clean:
  "google E (now st) source_lang text = Inr translated \<Longrightarrow>
   clean_translated_text (unicode E) translated \<noteq> [] \<Longrightarrow>
   translate_try E text source_lang st =
     Inr (clean_translated_text (unicode E) translated,
          st\<lparr>cache := AList.update (cache_key_of source_lang text)
                         (clean_translated_text (unicode E) translated) (cache st),
             trace := trace st @ [NetCall GoogleTranslator source_lang text,
                                  Sleep rate_limit_delay]\<rparr>)"
  by (simp add: translate_try_def Let_def emit_def)

lemma translate_try_fallback:
  "google E (now st) source_lang text = Inr translated \<Longrightarrow>
   clean_translated_text (unicode E) translated = [] \<Longrightarrow>
   mymemory E (Suc (now st)) source_lang text = Inr translated' \<Longrightarrow>
   translate_try E text source_lang st =
     Inr (clean_translated_text (unicode E) translated',
          st\<lparr>cache := AList.update (cache_key_of source_lang text)
                         (clean_translated_text (unicode E) translated') (cache st),
             trace := trace st @ [NetCall GoogleTranslator source_lang text,
                                  NetCall MyMemoryTranslator source_lang text,
                                  Sleep rate_limit_delay]\<rparr>)"
  by (simp add: translate_try_def Let_def emit_def now_def)

lemma translate_try_fallback_raise:
  "google E (now st) source_lang text = Inr translated \<Longrightarrow>
   clean_translated_text (unicode E) translated = [] \<Longrightarrow>
   mymemory E (Suc (now st)) source_lang text = Inl e \<Longrightarrow>
   translate_try E text source_lang st =
     Inr (translated,
          st\<lparr>cache := AList.update (cache_key_of source_lang text) translated (cache st),
             trace := trace st @ [NetCall GoogleTranslator source_lang text,
                                  NetCall MyMemoryTranslator source_lang text,
                                  Sleep rate_limit_delay]\<rparr>)"
  by (simp add: translate_try_def Let_def emit_def now_def)

lemma translate_text_miss:
  "text \<noteq> [] \<Longrightarrow> map_of (cache st) (cache_key_of source_lang text) = None \<Longrightarrow>
   translate_try E text source_lang st = Inr res \<Longrightarrow>
   translate_text E text source_lang st = res"
  by (simp add: translate_text_def)

text \<open>Whenever the primary provider returns, the call caches what it returns.\<close>

lemma translate_text_returns:
  assumes "text \<noteq> []"
    and "map_of (cache st) (cache_key_of source_lang text) = None"
    and "google E (now st) source_lang text = Inr translated"
    and "translate_text E text source_lang st = (r, st1)"
  shows "map_of (cache st1) (cache_key_of source_lang text) = Some r \<and>
         (new_events st st1 = [NetCall GoogleTranslator source_lang text, Sleep rate_limit_delay] \<or>
          new_events st st1 = [NetCall GoogleTranslator source_lang text,
                               NetCall MyMemoryTranslator source_lang text,
                               Sleep rate_limit_delay])"
proof (cases "clean_translated_text (unicode E) translated = []")
  case False
  from translate_text_miss [OF assms(1,2) translate_try_clean [OF assms(3) False]] assms(4)
  show ?thesis by (auto simp: map_of_update_same new_events_def)
next
  case True
  show ?thesis
  proof (cases "mymemory E (Suc (now st)) source_lang text")
    case (Inl e)
    from translate_text_miss [OF assms(1,2) translate_try_fallback_raise [OF assms(3) True Inl]]
      assms(4)
    show ?thesis by (auto simp: map_of_update_same new_events_def)
  next
    case (Inr translated')
    from translate_text_miss [OF assms(1,2) translate_try_fallback [OF assms(3) True Inr]]
      assms(4)
    show ?thesis by (auto simp: map_of_update_same new_events_def)
  qed
qed

text \<open>The concrete runs, evaluated.\<close>

lemma down_first_eval:
  "down_first =
     (mekuri, \<lparr>cache = [],
               trace = [NetCall GoogleTranslator lang_as mekuri,
                        Print (TranslationError mekuri outage)],
               files = []\<rparr>)"
  by (simp add: down_first_def world_down_def run_defs Let_def)

lemma down_second_eval:
  "down_second =
     (mekuri, \<lparr>cache = [],
               trace = [NetCall GoogleTranslator lang_as mekuri,
                        Print (TranslationError mekuri outage),
                        NetCall GoogleTranslator lang_as mekuri,
                        Print (TranslationError mekuri outage)],
               files = []\<rparr>)"
  by (simp add: down_second_def down_first_def world_down_def run_defs Let_def)

lemma comma_run_eval:
  "comma_run =
     (ascii '', cat'',
      \<lparr>cache = [(cache_key_of lang_as mekuri, ascii '', cat'')],
       trace = [NetCall GoogleTranslator lang_as mekuri,
                NetCall MyMemoryTranslator lang_as mekuri,
                Sleep rate_limit_delay],
       files = []\<rparr>)"
  by (simp add: comma_run_def world_comma_def run_defs eval_defs Let_def)

lemma fallback_run_eval:
  "fallback_run =
     (ascii ''cat'',
      \<lparr>cache = [(cache_key_of lang_as mekuri, ascii ''cat'')],
       trace = [NetCall GoogleTranslator lang_as mekuri,
                NetCall MyMemoryTranslator lang_as mekuri,
                Sleep rate_limit_delay],
       files = []\<rparr>)"
  by (simp add: fallback_run_def world_fallback_def run_defs eval_defs Let_def)

lemma up_run_eval:
  "up_run =
     (ascii ''cat'',
      \<lparr>cache = [(cache_key_of lang_as mekuri, ascii ''cat'')],
       trace = [NetCall GoogleTranslator lang_as mekuri, Sleep rate_limit_delay],
       files = []\<rparr>)"
  by (simp add: up_run_def world_up_def run_defs eval_defs Let_def)

lemma clean_comma_cat: "clean_translated_text ucd0 (ascii '', cat'') = []"
  by (simp add: eval_defs)

section \<open>The file processor, step by step\<close>







lemmas rec_defs = process_record_def dict_get_def generated_text_def generated_state_def


lemma record_dog_eval:
  "process_record world_echo lang_as record_dog st0 =
     (Inr (record_dog @
           [(ascii ''CleanedAnswer'', JStr (ascii ''dog'')),
            (ascii ''TranslatedAnswer'', JStr (ascii ''dog'')),
            (ascii ''TranslatedAnswerList'', JArr [])]),
      \<lparr>cache = [(cache_key_of lang_as (ascii ''dog''), ascii ''dog'')],
       trace = [NetCall GoogleTranslator lang_as (ascii ''dog''), Sleep rate_limit_delay],
       files = []\<rparr>)"
  by (simp add: world_echo_def record_dog_def rec_defs run_defs eval_defs Let_def)


section \<open>Text cleaners: claims C7 and C8\<close>

text \<open>
  C7. \<open>clean_generated_answer\<close> of the empty string is the empty string; of a string
  without a comma it is the string with the white space at its ends removed; of a string
  with a comma it is the part before the first comma, with the white space at its ends
  removed.
\<close>

theorem clean_generated_answer_spec:
  "clean_generated_answer [] = [] \<and>
   (comma \<notin> set S \<longrightarrow> clean_generated_answer S = strip S) \<and>
   (\<forall>pre post. S = pre @ comma # post \<and> comma \<notin> set pre \<longrightarrow>
      clean_generated_answer S = strip pre)"
proof (intro conjI allI impI)
  show "clean_generated_answer [] = []"
    by (simp add: clean_generated_answer_def)
next
  assume "comma \<notin> set S"
  then show "clean_generated_answer S = strip S"
    by (simp add: clean_generated_answer_def strip_def)
next
  fix pre post
  assume "S = pre @ comma # post \<and> comma \<notin> set pre"
  then have S: "S = pre @ comma # post" and pre: "comma \<notin> set pre" by simp_all
  from pre have "takeWhile (\<lambda>c. c \<noteq> comma) (pre @ comma # post) = pre"
    by (subst takeWhile_append2) auto
  with S show "clean_generated_answer S = strip pre"
    by (simp add: clean_generated_answer_def split_comma_first_def)
qed

theorem clean_generated_answer_spec_witness:
  "clean_generated_answer (ascii ''cat, animal'') = ascii ''cat'' \<and>
   clean_generated_answer (ascii ''dog'') = ascii ''dog'' \<and>
   clean_generated_answer [] = []"
proof -
  have 1: "ascii ''cat, animal'' = ascii ''cat'' @ comma # ascii '' animal'' \<and>
           comma \<notin> set (ascii ''cat'')"
    by (simp add: ascii_def comma_def)
  have 2: "comma \<notin> set (ascii ''dog'')"
    by (simp add: ascii_def comma_def)
  have "clean_generated_answer (ascii ''cat, animal'') = strip (ascii ''cat'')"
    using clean_generated_answer_spec [of "ascii ''cat, animal''"] 1 by blast
  moreover have "clean_generated_answer (ascii ''dog'') = strip (ascii ''dog'')"
    using clean_generated_answer_spec [of "ascii ''dog''"] 2 by blast
  moreover have "clean_generated_answer [] = []"
    using clean_generated_answer_spec [of "[]"] by simp
  moreover have "strip (ascii ''cat'') = ascii ''cat''" "strip (ascii ''dog'') = ascii ''dog''"
    by (simp_all add: strip_def ascii_def py_isspace_def)
  ultimately show ?thesis by simp
qed

text \<open>
  C8. \<open>clean_translated_text\<close> of the empty string is the empty string, and of
  \<open>The cat is an animal\<close> it is \<open>cat\<close>: lower-casing and trimming give
  \<open>the cat is an animal\<close>, the first substitution strips the leading article, the second
  the trailing copular clause. In general the result is the trimmed segment before the
  first match of the split pattern: it holds no comma, semicolon or period, and neither
  starts nor ends with white space.
\<close>

theorem clean_translated_text_spec:
  "clean_translated_text u [] = [] \<and>
   clean_translated_text u (ascii ''The cat is an animal'') = ascii ''cat'' \<and>
   strip (py_lower u (ascii ''The cat is an animal'')) = ascii ''the cat is an animal'' \<and>
   re_sub (patterns u ! 0) (ascii ''the cat is an animal'') = ascii ''cat is an animal'' \<and>
   re_sub (patterns u ! 1) (ascii ''cat is an animal'') = ascii ''cat'' \<and>
   44 \<notin> set (clean_translated_text u t) \<and>
   59 \<notin> set (clean_translated_text u t) \<and>
   46 \<notin> set (clean_translated_text u t) \<and>
   (clean_translated_text u t \<noteq> [] \<longrightarrow>
      \<not> py_isspace (hd (clean_translated_text u t)) \<and>
      \<not> py_isspace (last (clean_translated_text u t)))"
proof -
  have "clean_translated_text u [] = []"
    by (simp add: clean_translated_text_def)
  moreover have "clean_translated_text u (ascii ''The cat is an animal'') = ascii ''cat''"
    by (simp add: eval_defs)
  moreover have "strip (py_lower u (ascii ''The cat is an animal'')) = ascii ''the cat is an animal''"
    by (simp add: eval_defs)
  moreover have "re_sub (patterns u ! 0) (ascii ''the cat is an animal'') = ascii ''cat is an animal''"
    by (simp add: eval_defs)
  moreover have "re_sub (patterns u ! 1) (ascii ''cat is an animal'') = ascii ''cat''"
    by (simp add: eval_defs)
  moreover have "44 \<notin> set (clean_translated_text u t)" "59 \<notin> set (clean_translated_text u t)"
    "46 \<notin> set (clean_translated_text u t)"
    using clean_translated_no_punct by blast+
  moreover have "clean_translated_text u t \<noteq> [] \<longrightarrow>
      \<not> py_isspace (hd (clean_translated_text u t)) \<and>
      \<not> py_isspace (last (clean_translated_text u t))"
    using strip_ends by (auto simp: clean_translated_text_def)
  ultimately show ?thesis by blast
qed

theorem clean_translated_text_spec_witness:
  "clean_translated_text \<lparr>str_lower = id, chr_tolower = id\<rparr> (ascii ''The cat is an animal'')
     = ascii ''cat'' \<and>
   ascii ''cat'' \<noteq> [] \<and> \<not> py_isspace (hd (ascii ''cat'')) \<and> \<not> py_isspace (last (ascii ''cat''))"
proof -
  note w = clean_translated_text_spec
    [of "\<lparr>str_lower = id, chr_tolower = id\<rparr>" "ascii ''The cat is an animal''"]
  have e: "clean_translated_text \<lparr>str_lower = id, chr_tolower = id\<rparr>
             (ascii ''The cat is an animal'') = ascii ''cat''"
    by (rule w [THEN conjunct2, THEN conjunct1])
  have n: "ascii ''cat'' \<noteq> []"
    by (simp add: ascii_def)
  from w have "clean_translated_text \<lparr>str_lower = id, chr_tolower = id\<rparr>
                 (ascii ''The cat is an animal'') \<noteq> [] \<longrightarrow>
     \<not> py_isspace (hd (clean_translated_text \<lparr>str_lower = id, chr_tolower = id\<rparr>
                         (ascii ''The cat is an animal''))) \<and>
     \<not> py_isspace (last (clean_translated_text \<lparr>str_lower = id, chr_tolower = id\<rparr>
                         (ascii ''The cat is an animal'')))"
    by (elim conjE)
  with e n show ?thesis by simp
qed

section \<open>Translator: claims C1, C2, C3, C4 and C10\<close>

text \<open>
  C1, as the claim states it, fails. While the primary provider is down, two calls for
  the same text make two network calls, the key is not in the cache after the first
  call, and the second call makes a network call of its own. And a single call that
  takes the fallback makes two network calls.
\<close>

theorem translate_twice_counterexample:
  "net_calls (trace (snd down_second)) = 2 \<and>
   map_of (cache (snd down_first)) (cache_key_of lang_as mekuri) = None \<and>
   net_calls (new_events (snd down_first) (snd down_second)) = 1 \<and>
   net_calls (trace (snd fallback_run)) = 2"
  by (simp add: down_first_eval down_second_eval fallback_run_eval net_calls_def new_events_def)

text \<open>
  C1, amended. For a non-empty text whose key is in the cache or whose primary provider
  call returns: after the first call the key is in the cache with the string the call
  returned, a second call returns the same string and changes nothing (no event, so no
  network call), and the first call makes at most two network calls.
\<close>

theorem translate_twice:
  assumes "text \<noteq> []"
    and "map_of (cache st) (cache_key_of source_lang text) = Some hit \<or>
         google E (now st) source_lang text = Inr translated"
    and "translate_text E text source_lang st = (r1, st1)"
  shows "map_of (cache st1) (cache_key_of source_lang text) = Some r1 \<and>
         translate_text E text source_lang st1 = (r1, st1) \<and>
         net_calls (new_events st st1) \<le> 2"
proof (cases "map_of (cache st) (cache_key_of source_lang text)")
  case (Some v)
  with assms(1,3) have "r1 = v" "st1 = st"
    by (simp_all add: translate_text_hit)
  with Some assms(1) show ?thesis
    by (simp add: translate_text_hit new_events_def net_calls_def)
next
  case None
  with assms(2) have g: "google E (now st) source_lang text = Inr translated" by simp
  note r = translate_text_returns [OF assms(1) None g assms(3)]
  then have "map_of (cache st1) (cache_key_of source_lang text) = Some r1" by simp
  moreover from this assms(1) have "translate_text E text source_lang st1 = (r1, st1)"
    by (rule translate_text_hit [rotated])
  moreover from r have "net_calls (new_events st st1) \<le> 2"
    by (auto simp: net_calls_def)
  ultimately show ?thesis by simp
qed

theorem translate_twice_witness:
  "mekuri \<noteq> [] \<and>
   google world_up (now st0) lang_as mekuri = Inr (ascii ''The cat is an animal'') \<and>
   translate_text world_up mekuri lang_as st0 = up_run \<and>
   map_of (cache (snd up_run)) (cache_key_of lang_as mekuri) = Some (fst up_run) \<and>
   translate_text world_up mekuri lang_as (snd up_run) = up_run \<and>
   net_calls (new_events st0 (snd up_run)) \<le> 2"
proof -
  have 1: "mekuri \<noteq> []"
    by (simp add: mekuri_def)
  have 2: "google world_up (now st0) lang_as mekuri = Inr (ascii ''The cat is an animal'')"
    by (simp add: world_up_def world_def)
  have 3: "translate_text world_up mekuri lang_as st0 = (fst up_run, snd up_run)"
    by (simp add: up_run_def)
  from translate_twice [OF 1 disjI2 [OF 2] 3] 1 2 3 show ?thesis by simp
qed

text \<open>
  C2, as the claim states it, fails in its second half. When the fallback call raises
  there is no output of the fallback provider: the string returned and cached is the
  primary provider's raw output.
\<close>

theorem fallback_raise_counterexample:
  "google world_comma 0 lang_as mekuri = Inr (ascii '', cat'') \<and>
   clean_translated_text (unicode world_comma) (ascii '', cat'') = [] \<and>
   mymemory world_comma 1 lang_as mekuri = Inl outage \<and>
   fst comma_run = ascii '', cat'' \<and>
   map_of (cache (snd comma_run)) (cache_key_of lang_as mekuri) = Some (ascii '', cat'')"
  by (simp add: comma_run_eval clean_comma_cat world_comma_def world_def)

text \<open>
  C2, amended. On a cache miss, when the primary provider returns and cleaning its output
  gives the empty string, the fallback provider is called; the string returned is also
  the one cached; when the fallback call returns it is its cleaned output, and when the
  fallback call raises it is the primary provider's raw, uncleaned output.
\<close>

theorem translate_text_fallback:
  assumes "text \<noteq> []"
    and "map_of (cache st) (cache_key_of source_lang text) = None"
    and "google E (now st) source_lang text = Inr translated"
    and "clean_translated_text (unicode E) translated = []"
    and "translate_text E text source_lang st = (r, st1)"
  shows "NetCall MyMemoryTranslator source_lang text \<in> set (new_events st st1) \<and>
         map_of (cache st1) (cache_key_of source_lang text) = Some r \<and>
         (\<forall>translated'. mymemory E (Suc (now st)) source_lang text = Inr translated' \<longrightarrow>
            r = clean_translated_text (unicode E) translated') \<and>
         (\<forall>e. mymemory E (Suc (now st)) source_lang text = Inl e \<longrightarrow> r = translated)"
proof (cases "mymemory E (Suc (now st)) source_lang text")
  case (Inl e)
  from translate_text_miss [OF assms(1,2) translate_try_fallback_raise [OF assms(3,4) Inl]]
    assms(5) Inl
  show ?thesis by (auto simp: map_of_update_same new_events_def)
next
  case (Inr translated')
  from translate_text_miss [OF assms(1,2) translate_try_fallback [OF assms(3,4) Inr]]
    assms(5) Inr
  show ?thesis by (auto simp: map_of_update_same new_events_def)
qed

theorem translate_text_fallback_witness:
  "mymemory world_comma (Suc (now st0)) lang_as mekuri = Inl outage \<and>
   fst comma_run = ascii '', cat'' \<and>
   mymemory world_fallback (Suc (now st0)) lang_as mekuri = Inr (ascii ''The cat is an animal'') \<and>
   fst fallback_run = clean_translated_text (unicode world_fallback) (ascii ''The cat is an animal'') \<and>
   NetCall MyMemoryTranslator lang_as mekuri \<in> set (new_events st0 (snd fallback_run)) \<and>
   map_of (cache (snd fallback_run)) (cache_key_of lang_as mekuri) = Some (fst fallback_run)"
proof -
  have 1: "mekuri \<noteq> []"
    by (simp add: mekuri_def)
  have 2: "map_of (cache st0) (cache_key_of lang_as mekuri) = None"
    by (simp add: st0_def)
  have c3: "google world_comma (now st0) lang_as mekuri = Inr (ascii '', cat'')"
    and f3: "google world_fallback (now st0) lang_as mekuri = Inr (ascii '', cat'')"
    by (simp_all add: world_comma_def world_fallback_def world_def)
  have c4: "clean_translated_text (unicode world_comma) (ascii '', cat'') = []"
    and f4: "clean_translated_text (unicode world_fallback) (ascii '', cat'') = []"
    by (simp_all add: world_comma_def world_fallback_def world_def clean_comma_cat)
  have c5: "translate_text world_comma mekuri lang_as st0 = (fst comma_run, snd comma_run)"
    and f5: "translate_text world_fallback mekuri lang_as st0 = (fst fallback_run, snd fallback_run)"
    by (simp_all add: comma_run_def fallback_run_def)
  have c6: "mymemory world_comma (Suc (now st0)) lang_as mekuri = Inl outage"
    and f6: "mymemory world_fallback (Suc (now st0)) lang_as mekuri
               = Inr (ascii ''The cat is an animal'')"
    by (simp_all add: world_comma_def world_fallback_def world_def)
  from translate_text_fallback [OF 1 2 c3 c4 c5] c6
  have "fst comma_run = ascii '', cat''" by blast
  moreover from translate_text_fallback [OF 1 2 f3 f4 f5] f6
  have "NetCall MyMemoryTranslator lang_as mekuri \<in> set (new_events st0 (snd fallback_run)) \<and>
        map_of (cache (snd fallback_run)) (cache_key_of lang_as mekuri) = Some (fst fallback_run) \<and>
        fst fallback_run
          = clean_translated_text (unicode world_fallback) (ascii ''The cat is an animal'')"
    by blast
  ultimately show ?thesis using c6 f6 by simp
qed

text \<open>
  C3. For a non-empty text that is not in the cache, when the body of the \<open>try\<close> raises,
  it is the call of the primary provider that raised; \<open>translate_text\<close> then returns the
  text itself, having logged the error message after the network call, and raises
  nothing (its result is a string and a state, whatever the providers do).
\<close>

theorem translate_text_provider_failure:
  assumes "text \<noteq> []"
    and "map_of (cache st) (cache_key_of source_lang text) = None"
    and "translate_try E text source_lang st = Inl (e, st')"
  shows "google E (now st) source_lang text = Inl e \<and>
         translate_text E text source_lang st =
           (text, st\<lparr>trace := trace st @ [NetCall GoogleTranslator source_lang text,
                                           Print (TranslationError text e)]\<rparr>)"
proof -
  from assms(3) have g: "google E (now st) source_lang text = Inl e"
    by (simp add: translate_try_Inl)
  with assms(1,2) show ?thesis
    by (simp add: translate_text_raise)
qed

theorem translate_text_provider_failure_witness:
  "mekuri \<noteq> [] \<and>
   map_of (cache st0) (cache_key_of lang_as mekuri) = None \<and>
   translate_try world_down mekuri lang_as st0
     = Inl (outage, emit (NetCall GoogleTranslator lang_as mekuri) st0) \<and>
   translate_text world_down mekuri lang_as st0 =
     (mekuri, st0\<lparr>trace := trace st0 @ [NetCall GoogleTranslator lang_as mekuri,
                                         Print (TranslationError mekuri outage)]\<rparr>)"
proof -
  have 1: "mekuri \<noteq> []"
    by (simp add: mekuri_def)
  have 2: "map_of (cache st0) (cache_key_of lang_as mekuri) = None"
    by (simp add: st0_def)
  have 3: "translate_try world_down mekuri lang_as st0
             = Inl (outage, emit (NetCall GoogleTranslator lang_as mekuri) st0)"
    by (simp add: translate_try_def world_down_def world_def)
  from translate_text_provider_failure [OF 1 2 3] 1 2 3 show ?thesis by simp
qed

text \<open>
  C4, as the claim states it, fails. When the call of the primary provider raises, the
  network call is followed by the error message only: the run has no delay.
\<close>

theorem delay_counterexample:
  "trace (snd down_first) =
     [NetCall GoogleTranslator lang_as mekuri, Print (TranslationError mekuri outage)] \<and>
   Sleep rate_limit_delay \<notin> set (trace (snd down_first))"
  by (simp add: down_first_eval)

text \<open>
  C4, amended. On a cache miss for a non-empty text, when the call of the primary provider
  returns, the events of the run are the network calls (the primary one and, when taken,
  the fallback one right after it) followed by one delay of the fixed duration, which
  ends the run.
\<close>

theorem translate_text_delay:
  assumes "text \<noteq> []"
    and "map_of (cache st) (cache_key_of source_lang text) = None"
    and "google E (now st) source_lang text = Inr translated"
    and "translate_text E text source_lang st = (r, st1)"
  shows "new_events st st1 = [NetCall GoogleTranslator source_lang text,
                              Sleep rate_limit_delay] \<or>
         new_events st st1 = [NetCall GoogleTranslator source_lang text,
                              NetCall MyMemoryTranslator source_lang text,
                              Sleep rate_limit_delay]"
  using translate_text_returns [OF assms] by simp

theorem translate_text_delay_witness:
  "mekuri \<noteq> [] \<and>
   map_of (cache st0) (cache_key_of lang_as mekuri) = None \<and>
   google world_fallback (now st0) lang_as mekuri = Inr (ascii '', cat'') \<and>
   new_events st0 (snd fallback_run) =
     [NetCall GoogleTranslator lang_as mekuri, NetCall MyMemoryTranslator lang_as mekuri,
      Sleep rate_limit_delay]"
proof -
  have 1: "mekuri \<noteq> []"
    by (simp add: mekuri_def)
  have 2: "map_of (cache st0) (cache_key_of lang_as mekuri) = None"
    by (simp add: st0_def)
  have 3: "google world_fallback (now st0) lang_as mekuri = Inr (ascii '', cat'')"
    by (simp add: world_fallback_def world_def)
  have 4: "translate_text world_fallback mekuri lang_as st0 = (fst fallback_run, snd fallback_run)"
    by (simp add: fallback_run_def)
  have n: "NetCall MyMemoryTranslator lang_as mekuri \<in> set (new_events st0 (snd fallback_run))"
    by (simp add: fallback_run_eval new_events_def st0_def)
  from translate_text_delay [OF 1 2 3 4] n
  have "new_events st0 (snd fallback_run) =
     [NetCall GoogleTranslator lang_as mekuri, NetCall MyMemoryTranslator lang_as mekuri,
      Sleep rate_limit_delay]"
    by auto
  with 1 2 3 show ?thesis by simp
qed

text \<open>
  C10. For a non-empty text that is not in the cache, when the call of the primary
  provider raises, the text itself is returned and the cache is exactly what it was, so
  the key is still absent; and a call for the same text and language code, there or in
  any later state where the key is absent, starts with the network call to the primary
  provider again.
\<close>

theorem failed_translation_not_cached:
  assumes "text \<noteq> []"
    and "map_of (cache st) (cache_key_of source_lang text) = None"
    and "google E (now st) source_lang text = Inl e"
    and "translate_text E text source_lang st = (r, st1)"
  shows "r = text \<and> cache st1 = cache st \<and>
         map_of (cache st1) (cache_key_of source_lang text) = None \<and>
         (\<forall>st2. map_of (cache st2) (cache_key_of source_lang text) = None \<longrightarrow>
            (\<exists>rest. new_events st2 (snd (translate_text E text source_lang st2))
                      = NetCall GoogleTranslator source_lang text # rest))"
proof -
  from translate_text_raise [OF assms(1,2,3)] assms(4)
  have "r = text" and c: "cache st1 = cache st" by auto
  moreover from c assms(2) have "map_of (cache st1) (cache_key_of source_lang text) = None"
    by simp
  moreover have "\<exists>rest. new_events st2 (snd (translate_text E text source_lang st2))
                      = NetCall GoogleTranslator source_lang text # rest"
    if miss: "map_of (cache st2) (cache_key_of source_lang text) = None" for st2
  proof (cases "google E (now st2) source_lang text")
    case (Inl e2)
    from translate_text_raise [OF assms(1) miss Inl] show ?thesis
      by (simp add: new_events_def)
  next
    case (Inr translated)
    obtain r2 st3 where t: "translate_text E text source_lang st2 = (r2, st3)"
      by (cases "translate_text E text source_lang st2")
    from translate_text_returns [OF assms(1) miss Inr t] t show ?thesis
      by auto
  qed
  ultimately show ?thesis by blast
qed

theorem failed_translation_not_cached_witness:
  "google world_down (now st0) lang_as mekuri = Inl outage \<and>
   fst down_first = mekuri \<and> cache (snd down_first) = cache st0 \<and>
   map_of (cache (snd down_first)) (cache_key_of lang_as mekuri) = None \<and>
   (\<exists>rest. new_events (snd down_first) (snd down_second)
             = NetCall GoogleTranslator lang_as mekuri # rest)"
proof -
  have 1: "mekuri \<noteq> []"
    by (simp add: mekuri_def)
  have 2: "map_of (cache st0) (cache_key_of lang_as mekuri) = None"
    by (simp add: st0_def)
  have 3: "google world_down (now st0) lang_as mekuri = Inl outage"
    by (simp add: world_down_def world_def)
  have 4: "translate_text world_down mekuri lang_as st0 = (fst down_first, snd down_first)"
    by (simp add: down_first_def)
  note w = failed_translation_not_cached [OF 1 2 3 4]
  then have a: "fst down_first = mekuri" and b: "cache (snd down_first) = cache st0"
    and c: "map_of (cache (snd down_first)) (cache_key_of lang_as mekuri) = None"
    by blast+
  from w c have "\<exists>rest. new_events (snd down_first)
                    (snd (translate_text world_down mekuri lang_as (snd down_first)))
                  = NetCall GoogleTranslator lang_as mekuri # rest"
    by blast
  then have "\<exists>rest. new_events (snd down_first) (snd down_second)
                  = NetCall GoogleTranslator lang_as mekuri # rest"
    by (simp add: down_second_def)
  with a b c 3 show ?thesis by simp
qed

section \<open>File processor: claims C5 and C6\<close>





section \<open>Cache store: claim C9\<close>



end
